theory Spec2Isabelle
  imports Main "HOL-Library.Char_ord" "HOL-Library.List_Lexorder"
begin

section \<open>Data model (types.ts)\<close>

text \<open>
  The string-literal union \<^verbatim>\<open>'low' | 'medium' | 'high'\<close> of \<^verbatim>\<open>Note.priority\<close>.
  Every value of the type passes the column's \<^verbatim>\<open>CHECK(priority IN (...))\<close>, and an absent
  priority is stored as NULL, which passes it too.
\<close>

datatype Priority = low | medium | high

text \<open>
  A row of table \<^verbatim>\<open>notes\<close> holds the eight columns of the schema; a \<^verbatim>\<open>Note\<close> value is a row
  plus the optional \<^verbatim>\<open>tags\<close> property. An optional property (or a NULL column) is \<open>None\<close>.
  Text is a list of characters; timestamps and due dates are text, compared as the
  engine's BINARY collation compares them (lexicographically).
\<close>

record NoteRow =
  note_id :: nat
  title :: string
  content :: string
  folder :: "string option"
  priority :: "Priority option"
  dueDate :: "string option"
  createdAt :: string
  updatedAt :: string

record Note = NoteRow +
  tags :: "string list option"

record Folder =
  folder_id :: nat
  folder_name :: string
  folder_createdAt :: string

record Tag =
  tag_id :: nat
  tag_name :: string
  noteId :: nat

datatype SearchField = in_title | in_content | in_tags

datatype SortField = by_createdAt | by_updatedAt | by_dueDate

datatype SortOrder = asc | desc

text \<open>
  A value of type \<^verbatim>\<open>number\<close>, as far as the code and the engine tell numbers apart: an
  integer, the value NaN, or any other number that is not an integer (one with a
  fractional part, or an infinity).
\<close>

datatype number = Integer int | NonInteger | NaN

text \<open>
  \<^verbatim>\<open>SearchOptions\<close>. The fields \<open>opt_folder\<close> and \<open>opt_priority\<close> are its \<^verbatim>\<open>folder\<close> and
  \<^verbatim>\<open>priority\<close>.
\<close>

record SearchOptions =
  query :: string
  searchIn :: "SearchField list option"
  opt_folder :: "string option"
  opt_priority :: "Priority option"
  hasDueDate :: "bool option"
  sortBy :: "SortField option"
  sortOrder :: "SortOrder option"
  limit :: "number option"
  offset :: "number option"

text \<open>
  An optional property of an object that is bound to the named parameters of a
  statement: the key is absent, or it is present with the value \<^verbatim>\<open>undefined\<close>, or it is
  present with a value. The three are kept apart because binding tells them apart.
\<close>

datatype 'a property = Absent | Undefined | Value 'a

text \<open>What reading the property gives: \<open>None\<close> for \<^verbatim>\<open>undefined\<close>, whether the key is there or not.\<close>

fun read :: "'a property \<Rightarrow> 'a option" where
  "read Absent = None"
| "read Undefined = None"
| "read (Value v) = Some v"

text \<open>
  \<^verbatim>\<open>Omit<Note, 'id'>\<close>, the payload of \<^verbatim>\<open>NotesDB.createNote\<close>. The \<^verbatim>\<open>INSERT\<close> binds \<^verbatim>\<open>folder\<close>,
  \<^verbatim>\<open>priority\<close> and \<^verbatim>\<open>dueDate\<close> by name; \<^verbatim>\<open>tags\<close> is bound to nothing and only echoed.
\<close>

record NewNote =
  new_title :: string
  new_content :: string
  new_folder :: "string property"
  new_tags :: "string list option"
  new_priority :: "Priority property"
  new_dueDate :: "string property"
  new_createdAt :: string
  new_updatedAt :: string

text \<open>
  \<^verbatim>\<open>Partial<Note>\<close>, the payload of \<^verbatim>\<open>NotesDB.updateNote\<close>: \<open>None\<close> is an absent key, \<open>Some v\<close> a
  key that carries the value \<open>v\<close>.
\<close>

record NoteUpdates =
  upd_id :: "nat option"
  upd_title :: "string option"
  upd_content :: "string option"
  upd_folder :: "string option"
  upd_tags :: "string list option"
  upd_priority :: "Priority option"
  upd_dueDate :: "string option"
  upd_createdAt :: "string option"
  upd_updatedAt :: "string option"

section \<open>The store (db.ts, \<^verbatim>\<open>NotesDB.init\<close>)\<close>

text \<open>
  The three tables in rowid order, and for each the largest rowid handed out so far
  (\<^verbatim>\<open>AUTOINCREMENT\<close>). \<^verbatim>\<open>init\<close> turns foreign keys on, so the constraints of the schema are
  enforced by every statement below: \<^verbatim>\<open>title UNIQUE\<close>, \<^verbatim>\<open>UNIQUE(name, noteId)\<close>,
  \<^verbatim>\<open>FOREIGN KEY(noteId) REFERENCES notes(id) ON DELETE CASCADE\<close>. A statement that fails
  changes nothing. The engine's limits on the size of a statement or of a value are
  outside the model.
\<close>

record Store =
  note_rows :: "NoteRow list"
  tag_rows :: "Tag list"
  folder_rows :: "Folder list"
  notes_seq :: nat
  tags_seq :: nat
  folders_seq :: nat

text \<open>
  What the database layer throws: the engine's errors, and the \<^verbatim>\<open>RangeError\<close> of the binding
  when the object bound to a statement lacks one of its named parameters.
\<close>

datatype DbError =
    UniqueConstraintFailed
  | ForeignKeyConstraintFailed
  | SyntaxError
  | DatatypeMismatch
  | MissingNamedParameter

definition init :: Store where
  "init = \<lparr>note_rows = [], tag_rows = [], folder_rows = [], notes_seq = 0, tags_seq = 0, folders_seq = 0\<rparr>"

definition next_rowid :: "nat \<Rightarrow> nat list \<Rightarrow> nat" where
  "next_rowid seq ids = Suc (fold max ids seq)"

section \<open>Notes (db.ts)\<close>

text \<open>
  \<^verbatim>\<open>SELECT name FROM tags WHERE noteId = ?\<close>. The statement fixes no order; the names come in
  the order of the rows.
\<close>

definition getNoteTags :: "Store \<Rightarrow> nat \<Rightarrow> string list" where
  "getNoteTags s i = map tag_name (filter (\<lambda>t. noteId t = i) (tag_rows s))"

definition with_tags :: "Store \<Rightarrow> NoteRow \<Rightarrow> Note" where
  "with_tags s r =
     \<lparr>note_id = note_id r, title = title r, content = content r, folder = folder r,
      priority = priority r, dueDate = dueDate r, createdAt = createdAt r,
      updatedAt = updatedAt r, tags = Some (getNoteTags s (note_id r))\<rparr>"

text \<open>
  \<^verbatim>\<open>stmt.run(note)\<close> binds the seven named parameters to the properties of \<open>note\<close>: it throws
  when a key is absent, and binds \<^verbatim>\<open>undefined\<close> as NULL. The required properties are always
  there.
\<close>

definition missing :: "NewNote \<Rightarrow> bool" where
  "missing n = (new_folder n = Absent \<or> new_priority n = Absent \<or> new_dueDate n = Absent)"

text \<open>
  \<^verbatim>\<open>INSERT INTO notes\<close>, then \<^verbatim>\<open>{ ...note, id }\<close>. A title that a row holds violates
  \<^verbatim>\<open>title UNIQUE\<close>.
\<close>

definition createNote :: "Store \<Rightarrow> NewNote \<Rightarrow> (DbError + Note) \<times> Store" where
  "createNote s n =
     (if missing n then (Inl MissingNamedParameter, s)
      else if find (\<lambda>r. title r = new_title n) (note_rows s) \<noteq> None
      then (Inl UniqueConstraintFailed, s)
      else
        let i = next_rowid (notes_seq s) (map note_id (note_rows s)) in
        (Inr \<lparr>note_id = i, title = new_title n, content = new_content n,
              folder = read (new_folder n), priority = read (new_priority n),
              dueDate = read (new_dueDate n),
              createdAt = new_createdAt n, updatedAt = new_updatedAt n, tags = new_tags n\<rparr>,
         s\<lparr>note_rows := note_rows s @
               [\<lparr>note_id = i, title = new_title n, content = new_content n,
                 folder = read (new_folder n), priority = read (new_priority n),
                 dueDate = read (new_dueDate n),
                 createdAt = new_createdAt n, updatedAt = new_updatedAt n\<rparr>],
           notes_seq := i\<rparr>))"

definition getNote :: "Store \<Rightarrow> nat \<Rightarrow> Note option" where
  "getNote s i =
     (case find (\<lambda>r. note_id r = i) (note_rows s) of
        None \<Rightarrow> None
      | Some r \<Rightarrow> Some (with_tags s r))"

definition getNoteByTitle :: "Store \<Rightarrow> string \<Rightarrow> Note option" where
  "getNoteByTitle s t =
     (case find (\<lambda>r. title r = t) (note_rows s) of
        None \<Rightarrow> None
      | Some r \<Rightarrow> Some (with_tags s r))"

text \<open>\<^verbatim>\<open>Object.keys(updates)\<close>, and the keys that remain after the filter.\<close>

definition keys :: "NoteUpdates \<Rightarrow> string list" where
  "keys u =
     (if upd_id u = None then [] else [''id'']) @
     (if upd_title u = None then [] else [''title'']) @
     (if upd_content u = None then [] else [''content'']) @
     (if upd_folder u = None then [] else [''folder'']) @
     (if upd_tags u = None then [] else [''tags'']) @
     (if upd_priority u = None then [] else [''priority'']) @
     (if upd_dueDate u = None then [] else [''dueDate'']) @
     (if upd_createdAt u = None then [] else [''createdAt'']) @
     (if upd_updatedAt u = None then [] else [''updatedAt''])"

definition sets :: "NoteUpdates \<Rightarrow> string list" where
  "sets u = filter (\<lambda>key. key \<noteq> ''id'' \<and> key \<noteq> ''tags'') (keys u)"

text \<open>The \<^verbatim>\<open>SET\<close> clause on one row: a column named in \<open>sets\<close> takes the bound value.\<close>

definition assign :: "NoteUpdates \<Rightarrow> NoteRow \<Rightarrow> NoteRow" where
  "assign u r =
     r\<lparr>title := (case upd_title u of None \<Rightarrow> title r | Some v \<Rightarrow> v),
       content := (case upd_content u of None \<Rightarrow> content r | Some v \<Rightarrow> v),
       folder := (case upd_folder u of None \<Rightarrow> folder r | Some v \<Rightarrow> Some v),
       priority := (case upd_priority u of None \<Rightarrow> priority r | Some v \<Rightarrow> Some v),
       dueDate := (case upd_dueDate u of None \<Rightarrow> dueDate r | Some v \<Rightarrow> Some v),
       createdAt := (case upd_createdAt u of None \<Rightarrow> createdAt r | Some v \<Rightarrow> v),
       updatedAt := (case upd_updatedAt u of None \<Rightarrow> updatedAt r | Some v \<Rightarrow> v)\<rparr>"

text \<open>
  \<^verbatim>\<open>UPDATE notes SET ... WHERE id = @id\<close>. With no column left the statement has an empty
  \<^verbatim>\<open>SET\<close> clause and does not prepare. A new title that another row holds violates
  \<^verbatim>\<open>title UNIQUE\<close>.
\<close>

definition updateNote :: "Store \<Rightarrow> nat \<Rightarrow> NoteUpdates \<Rightarrow> (DbError + bool) \<times> Store" where
  "updateNote s i u =
     (if sets u = [] then (Inl SyntaxError, s)
      else if find (\<lambda>r. note_id r = i) (note_rows s) = None then (Inr False, s)
      else
        (case upd_title u of
           Some v \<Rightarrow>
             if find (\<lambda>r. note_id r \<noteq> i \<and> title r = v) (note_rows s) \<noteq> None
             then (Inl UniqueConstraintFailed, s)
             else (Inr True, s\<lparr>note_rows := map (\<lambda>r. if note_id r = i then assign u r else r) (note_rows s)\<rparr>)
         | None \<Rightarrow>
             (Inr True, s\<lparr>note_rows := map (\<lambda>r. if note_id r = i then assign u r else r) (note_rows s)\<rparr>)))"

text \<open>
  \<^verbatim>\<open>DELETE FROM notes WHERE id = ?\<close>; the foreign key's \<^verbatim>\<open>ON DELETE CASCADE\<close> deletes the
  tag rows of a deleted note in the same statement.
\<close>

definition deleteNote :: "Store \<Rightarrow> nat \<Rightarrow> bool \<times> Store" where
  "deleteNote s i =
     (if find (\<lambda>r. note_id r = i) (note_rows s) = None then (False, s)
      else (True, s\<lparr>note_rows := filter (\<lambda>r. note_id r \<noteq> i) (note_rows s),
                    tag_rows := filter (\<lambda>t. noteId t \<noteq> i) (tag_rows s)\<rparr>))"

section \<open>Tags and folders (db.ts)\<close>

text \<open>
  \<^verbatim>\<open>INSERT OR IGNORE INTO tags (name, noteId)\<close>: a pair already present is skipped, but the
  statement has drawn a rowid by then and the \<^verbatim>\<open>AUTOINCREMENT\<close> counter keeps it; a \<^verbatim>\<open>noteId\<close>
  that names no note fails the foreign key.
\<close>

definition addTag :: "Store \<Rightarrow> nat \<Rightarrow> string \<Rightarrow> (DbError + unit) \<times> Store" where
  "addTag s i tag =
     (let k = next_rowid (tags_seq s) (map tag_id (tag_rows s)) in
      if find (\<lambda>t. tag_name t = tag \<and> noteId t = i) (tag_rows s) \<noteq> None
      then (Inr (), s\<lparr>tags_seq := k\<rparr>)
      else if find (\<lambda>r. note_id r = i) (note_rows s) = None then (Inl ForeignKeyConstraintFailed, s)
      else (Inr (), s\<lparr>tag_rows := tag_rows s @ [\<lparr>tag_id = k, tag_name = tag, noteId = i\<rparr>],
                      tags_seq := k\<rparr>))"

text \<open>\<^verbatim>\<open>DELETE FROM tags WHERE noteId = ? AND name IN (...)\<close>; the list may be empty.\<close>

definition removeTags :: "Store \<Rightarrow> nat \<Rightarrow> string list \<Rightarrow> (DbError + unit) \<times> Store" where
  "removeTags s i names =
     (Inr (), s\<lparr>tag_rows := filter (\<lambda>t. \<not> (noteId t = i \<and> tag_name t \<in> set names)) (tag_rows s)\<rparr>)"

text \<open>\<open>now\<close> is the reading of the clock, \<^verbatim>\<open>new Date().toISOString()\<close>.\<close>

definition createFolder :: "string \<Rightarrow> Store \<Rightarrow> string \<Rightarrow> (DbError + Folder) \<times> Store" where
  "createFolder now s nm =
     (if find (\<lambda>f. folder_name f = nm) (folder_rows s) \<noteq> None then (Inl UniqueConstraintFailed, s)
      else
        let k = next_rowid (folders_seq s) (map folder_id (folder_rows s)) in
        (Inr \<lparr>folder_id = k, folder_name = nm, folder_createdAt = now\<rparr>,
         s\<lparr>folder_rows := folder_rows s @ [\<lparr>folder_id = k, folder_name = nm, folder_createdAt = now\<rparr>],
           folders_seq := k\<rparr>))"

section \<open>Search (db.ts, \<^verbatim>\<open>NotesDB.searchNotes\<close>)\<close>

text \<open>
  The engine's \<^verbatim>\<open>LIKE\<close> reads its pattern and its text up to the first NUL character. In
  the pattern, \<^verbatim>\<open>%\<close> matches any run of characters, \<^verbatim>\<open>_\<close> any one character, and any other
  character itself or its other ASCII case. A NULL operand makes the comparison NULL,
  which a \<^verbatim>\<open>WHERE\<close> clause reads as no match.
\<close>

definition ascii_lower :: "char \<Rightarrow> char" where
  "ascii_lower c =
     (case map_of (zip ''ABCDEFGHIJKLMNOPQRSTUVWXYZ'' ''abcdefghijklmnopqrstuvwxyz'') c of
        None \<Rightarrow> c
      | Some l \<Rightarrow> l)"

fun matches :: "string \<Rightarrow> string \<Rightarrow> bool" where
  "matches [] [] = True"
| "matches [] (c # cs) = False"
| "matches (p # ps) [] = (p = CHR ''%'' \<and> matches ps [])"
| "matches (p # ps) (c # cs) =
     (if p = CHR ''%'' then matches ps (c # cs) \<or> matches (p # ps) cs
      else (p = CHR ''_'' \<or> ascii_lower p = ascii_lower c) \<and> matches ps cs)"

definition until_nul :: "string \<Rightarrow> string" where
  "until_nul t = takeWhile (\<lambda>c. c \<noteq> CHR 0x00) t"

definition like :: "string \<Rightarrow> string \<Rightarrow> bool" where
  "like pattern t = matches (until_nul pattern) (until_nul t)"

text \<open>\<^verbatim>\<open>options.searchIn?.includes('tags')\<close>.\<close>

definition joins_tags :: "SearchOptions \<Rightarrow> bool" where
  "joins_tags opts = (case searchIn opts of None \<Rightarrow> False | Some fs \<Rightarrow> in_tags \<in> set fs)"

text \<open>
  \<^verbatim>\<open>FROM notes n\<close>, with \<^verbatim>\<open>LEFT JOIN tags t ON n.id = t.noteId\<close> when tags are searched: one
  row per tag of the note, or one row with a NULL tag side for a note that has none.
\<close>

definition from_rows :: "Store \<Rightarrow> SearchOptions \<Rightarrow> (NoteRow \<times> Tag option) list" where
  "from_rows s opts =
     (if joins_tags opts
      then concat (map (\<lambda>n.
             case filter (\<lambda>t. noteId t = note_id n) (tag_rows s) of
               [] \<Rightarrow> [(n, None)]
             | ts \<Rightarrow> map (\<lambda>t. (n, Some t)) ts) (note_rows s))
      else map (\<lambda>n. (n, None)) (note_rows s))"

definition searchFields :: "SearchOptions \<Rightarrow> SearchField list" where
  "searchFields opts = (case searchIn opts of None \<Rightarrow> [in_title, in_content] | Some fs \<Rightarrow> fs)"

text \<open>One of the \<^verbatim>\<open>fieldConditions\<close>, with \<^verbatim>\<open>%query%\<close> bound to its parameter.\<close>

fun fieldCondition :: "string \<Rightarrow> SearchField \<Rightarrow> NoteRow \<times> Tag option \<Rightarrow> bool" where
  "fieldCondition q in_tags (n, None) = False"
| "fieldCondition q in_tags (n, Some t) = like (''%'' @ q @ ''%'') (tag_name t)"
| "fieldCondition q in_title (n, t) = like (''%'' @ q @ ''%'') (title n)"
| "fieldCondition q in_content (n, t) = like (''%'' @ q @ ''%'') (content n)"

text \<open>
  The \<^verbatim>\<open>WHERE\<close> clause: the conditions pushed for a non-empty \<^verbatim>\<open>query\<close>, a non-empty
  \<^verbatim>\<open>folder\<close> and a \<^verbatim>\<open>priority\<close>, joined by \<^verbatim>\<open>AND\<close>.
\<close>

definition conditions :: "SearchOptions \<Rightarrow> NoteRow \<times> Tag option \<Rightarrow> bool" where
  "conditions opts row =
     ((if query opts = [] then True
       else list_ex (\<lambda>f. fieldCondition (query opts) f row) (searchFields opts)) \<and>
      (case opt_folder opts of
         None \<Rightarrow> True
       | Some f \<Rightarrow> if f = [] then True else folder (fst row) = Some f) \<and>
      (case opt_priority opts of
         None \<Rightarrow> True
       | Some p \<Rightarrow> priority (fst row) = Some p))"

text \<open>
  \<^verbatim>\<open>ORDER BY n.updatedAt DESC\<close>: an insertion sort that keeps rows of equal \<^verbatim>\<open>updatedAt\<close> in
  the order they come in (the engine fixes no order among them).
\<close>

fun insert_desc :: "NoteRow \<Rightarrow> NoteRow list \<Rightarrow> NoteRow list" where
  "insert_desc x [] = [x]"
| "insert_desc x (y # ys) =
     (if updatedAt y \<le> updatedAt x then x # y # ys else y # insert_desc x ys)"

definition order_by_updatedAt_desc :: "NoteRow list \<Rightarrow> NoteRow list" where
  "order_by_updatedAt_desc rs = foldr insert_desc rs []"

text \<open>
  A number is bound as a floating-point value. \<^verbatim>\<open>LIMIT\<close> and \<^verbatim>\<open>OFFSET\<close> take it only if it
  is an integer strictly between the least and the greatest 64-bit integer; otherwise
  the statement fails with a datatype mismatch.
\<close>

definition int64_range :: "int \<Rightarrow> bool" where
  "int64_range i = (- (2 ^ 63) < i \<and> i < 2 ^ 63 - 1)"

fun int64 :: "number \<Rightarrow> int option" where
  "int64 (Integer i) = (if int64_range i then Some i else None)"
| "int64 NonInteger = None"
| "int64 NaN = None"

text \<open>\<^verbatim>\<open>if (options.limit)\<close>, \<^verbatim>\<open>if (options.offset)\<close>: the numbers 0 and NaN are falsy.\<close>

fun truthy :: "number \<Rightarrow> bool" where
  "truthy (Integer i) = (i \<noteq> 0)"
| "truthy NonInteger = True"
| "truthy NaN = False"

text \<open>
  \<^verbatim>\<open>LIMIT ?\<close> and \<^verbatim>\<open>LIMIT ? OFFSET ?\<close> as the engine reads them: a negative limit is no
  bound, a negative offset is zero.
\<close>

definition limit_only :: "number \<Rightarrow> 'a list \<Rightarrow> DbError + 'a list" where
  "limit_only l rs =
     (case int64 l of
        None \<Rightarrow> Inl DatatypeMismatch
      | Some n \<Rightarrow> Inr (if n < 0 then rs else take (nat n) rs))"

definition limit_offset :: "number \<Rightarrow> number \<Rightarrow> 'a list \<Rightarrow> DbError + 'a list" where
  "limit_offset l k rs =
     (case int64 l of
        None \<Rightarrow> Inl DatatypeMismatch
      | Some n \<Rightarrow>
          (case int64 k of
             None \<Rightarrow> Inl DatatypeMismatch
           | Some m \<Rightarrow> Inr (if n < 0 then drop (nat m) rs else take (nat n) (drop (nat m) rs))))"

text \<open>
  The window: \<^verbatim>\<open>if (options.limit)\<close> and, inside it, \<^verbatim>\<open>if (options.offset)\<close>. A limit of 0
  adds no \<^verbatim>\<open>LIMIT\<close> clause, and without a \<^verbatim>\<open>LIMIT\<close> clause the offset is read by nobody.
\<close>

definition window :: "number option \<Rightarrow> number option \<Rightarrow> 'a list \<Rightarrow> DbError + 'a list" where
  "window lim off rs =
     (case lim of
        None \<Rightarrow> Inr rs
      | Some l \<Rightarrow>
          if \<not> truthy l then Inr rs
          else (case off of
                  None \<Rightarrow> limit_only l rs
                | Some k \<Rightarrow> if \<not> truthy k then limit_only l rs else limit_offset l k rs))"

text \<open>
  \<^verbatim>\<open>SELECT DISTINCT n.*\<close> of the filtered rows, ordered, cut to the window, each note then
  given its tags. A non-empty \<^verbatim>\<open>query\<close> with an empty \<^verbatim>\<open>searchIn\<close> array builds the condition
  \<^verbatim>\<open>()\<close>, which does not prepare; a statement that prepares can still fail on its limit or
  offset.
\<close>

definition searchNotes :: "Store \<Rightarrow> SearchOptions \<Rightarrow> DbError + Note list" where
  "searchNotes s opts =
     (if query opts \<noteq> [] \<and> searchFields opts = [] then Inl SyntaxError
      else
        (case window (limit opts) (offset opts)
                (order_by_updatedAt_desc
                  (remdups (map fst (filter (conditions opts) (from_rows s opts))))) of
           Inl err \<Rightarrow> Inl err
         | Inr notes \<Rightarrow> Inr (map (with_tags s) notes)))"

section \<open>Request handlers (handlers.ts)\<close>

text \<open>
  A handler either returns its reply or throws; both come with the store it leaves.
  The texts of replies and errors are named by constructors. \<open>now\<close> is the reading of
  the clock.
\<close>

datatype ErrorCode = InvalidParams | InternalError

datatype Message = TitleExists | NoteNotFound string | UpdateFailed

datatype Failure = McpError ErrorCode Message | DbFailure DbError

datatype Reply =
    NoteCreated string
  | NoteUpdated string
  | TagsRemoved string "string list"
  | NotesJson "Note list"

text \<open>
  The arguments of the tools. \<^verbatim>\<open>priority\<close> arrives as a string that the handlers cast to
  \<^verbatim>\<open>Note['priority']\<close>; it is taken to be one of the three values the tool schema lists.
\<close>

record CreateNoteArgs =
  cn_title :: string
  cn_content :: string
  cn_folder :: "string option"
  cn_priority :: "Priority option"
  cn_dueDate :: "string option"


record UpdateNoteArgs =
  un_title :: string
  un_content :: "string option"
  un_folder :: "string option"
  un_priority :: "Priority option"
  un_dueDate :: "string option"


text \<open>
  A property that an object literal sets from an optional argument: the key is there,
  with \<^verbatim>\<open>undefined\<close> when the argument is.
\<close>

fun given :: "'a option \<Rightarrow> 'a property" where
  "given None = Undefined"
| "given (Some v) = Value v"

definition handle_createNote :: "string \<Rightarrow> Store \<Rightarrow> CreateNoteArgs \<Rightarrow> (Failure + Reply) \<times> Store" where
  "handle_createNote now s args =
     (case createNote s
             \<lparr>new_title = cn_title args, new_content = cn_content args,
              new_folder = given (cn_folder args), new_tags = None,
              new_priority = given (cn_priority args), new_dueDate = given (cn_dueDate args),
              new_createdAt = now, new_updatedAt = now\<rparr> of
        (Inr note, s') \<Rightarrow> (Inr (NoteCreated (title note)), s')
      | (Inl err, s') \<Rightarrow>
          if err = UniqueConstraintFailed then (Inl (McpError InvalidParams TitleExists), s')
          else (Inl (DbFailure err), s'))"

definition handle_search :: "DbError + Note list \<Rightarrow> Failure + Reply" where
  "handle_search res = (case res of Inl err \<Rightarrow> Inl (DbFailure err) | Inr ns \<Rightarrow> Inr (NotesJson ns))"


definition handle_searchNotes :: "Store \<Rightarrow> SearchOptions \<Rightarrow> Failure + Reply" where
  "handle_searchNotes s args = handle_search (searchNotes s args)"

definition handle_updateNote :: "string \<Rightarrow> Store \<Rightarrow> UpdateNoteArgs \<Rightarrow> (Failure + Reply) \<times> Store" where
  "handle_updateNote now s args =
     (case getNoteByTitle s (un_title args) of
        None \<Rightarrow> (Inl (McpError InvalidParams (NoteNotFound (un_title args))), s)
      | Some note \<Rightarrow>
          (case updateNote s (note_id note)
                  \<lparr>upd_id = None, upd_title = None, upd_content = un_content args,
                   upd_folder = un_folder args, upd_tags = None,
                   upd_priority = un_priority args, upd_dueDate = un_dueDate args,
                   upd_createdAt = None, upd_updatedAt = Some now\<rparr> of
             (Inl err, s') \<Rightarrow> (Inl (DbFailure err), s')
           | (Inr success, s') \<Rightarrow>
               if \<not> success then (Inl (McpError InternalError UpdateFailed), s')
               else (Inr (NoteUpdated (un_title args)), s')))"


section \<open>Reachable stores\<close>

text \<open>
  The calls that write to the store, and the store a sequence of them leaves, starting
  from the empty tables that \<^verbatim>\<open>init\<close> creates.
\<close>

datatype Call =
    CreateNote NewNote
  | UpdateNote nat NoteUpdates
  | DeleteNote nat
  | AddTag nat string
  | RemoveTags nat "string list"
  | CreateFolder string string

fun step :: "Store \<Rightarrow> Call \<Rightarrow> Store" where
  "step s (CreateNote n) = snd (createNote s n)"
| "step s (UpdateNote i u) = snd (updateNote s i u)"
| "step s (DeleteNote i) = snd (deleteNote s i)"
| "step s (AddTag i tag) = snd (addTag s i tag)"
| "step s (RemoveTags i names) = snd (removeTags s i names)"
| "step s (CreateFolder now nm) = snd (createFolder now s nm)"

definition run :: "Call list \<Rightarrow> Store" where
  "run calls = foldl step init calls"

text \<open>
  What the schema promises of every store: the primary key and the title are unique,
  no id exceeds the \<^verbatim>\<open>AUTOINCREMENT\<close> counter, every tag row references a note, and no
  note carries a tag name twice.
\<close>

definition schema_ok :: "Store \<Rightarrow> bool" where
  "schema_ok s =
     (distinct (map note_id (note_rows s)) \<and>
      distinct (map title (note_rows s)) \<and>
      list_all (\<lambda>r. note_id r \<le> notes_seq s) (note_rows s) \<and>
      list_all (\<lambda>t. noteId t \<in> set (map note_id (note_rows s))) (tag_rows s) \<and>
      distinct (map (\<lambda>t. (tag_name t, noteId t)) (tag_rows s)))"

section \<open>An example store\<close>

text \<open>
  Two notes, created in this order, and three tags: the first note carries \<^verbatim>\<open>a\<close> and
  \<^verbatim>\<open>ab\<close>, the second \<^verbatim>\<open>b\<close>.
\<close>

definition groceries :: NewNote where
  "groceries =
     \<lparr>new_title = ''Groceries'', new_content = ''buy milk'', new_folder = Value ''home'',
      new_tags = None, new_priority = Undefined, new_dueDate = Undefined,
      new_createdAt = ''2024-01-01T09:00:00.000Z'', new_updatedAt = ''2024-01-01T09:00:00.000Z''\<rparr>"

definition groceries2 :: NewNote where
  "groceries2 =
     \<lparr>new_title = ''Groceries2'', new_content = ''buy milk too'', new_folder = Value ''work'',
      new_tags = None, new_priority = Value high, new_dueDate = Value ''2024-03-01'',
      new_createdAt = ''2024-01-02T09:00:00.000Z'', new_updatedAt = ''2024-01-02T09:00:00.000Z''\<rparr>"

definition example :: Store where
  "example =
     run [CreateNote groceries, CreateNote groceries2, AddTag 1 ''a'', AddTag 1 ''ab'', AddTag 2 ''b'']"

text \<open>
  A third note for the example store, the same payload without its \<^verbatim>\<open>folder\<close> key, and some
  requests and the notes they find.
\<close>

definition todo :: NewNote where
  "todo =
     \<lparr>new_title = ''Todo'', new_content = ''call the plumber'', new_folder = Undefined,
      new_tags = None, new_priority = Value low, new_dueDate = Value ''2024-02-10'',
      new_createdAt = ''2024-01-05T08:00:00.000Z'', new_updatedAt = ''2024-01-05T08:00:00.000Z''\<rparr>"

definition bare :: NewNote where
  "bare =
     \<lparr>new_title = ''Todo'', new_content = ''call the plumber'', new_folder = Absent,
      new_tags = None, new_priority = Value low, new_dueDate = Value ''2024-02-10'',
      new_createdAt = ''2024-01-05T08:00:00.000Z'', new_updatedAt = ''2024-01-05T08:00:00.000Z''\<rparr>"

definition milk :: SearchOptions where
  "milk = \<lparr>query = ''milk'', searchIn = None, opt_folder = None, opt_priority = None,
            hasDueDate = None, sortBy = None, sortOrder = None, limit = None, offset = None\<rparr>"

definition tagged_a :: SearchOptions where
  "tagged_a = \<lparr>query = ''A'', searchIn = Some [in_tags], opt_folder = None, opt_priority = None,
            hasDueDate = None, sortBy = None, sortOrder = None, limit = Some (Integer 5), offset = None\<rparr>"


definition note1 :: Note where
  "note1 = \<lparr>note_id = 1, title = ''Groceries'', content = ''buy milk'', folder = Some ''home'',
             priority = None, dueDate = None, createdAt = ''2024-01-01T09:00:00.000Z'',
             updatedAt = ''2024-01-01T09:00:00.000Z'', tags = Some [''a'', ''ab'']\<rparr>"

definition note2 :: Note where
  "note2 = \<lparr>note_id = 2, title = ''Groceries2'', content = ''buy milk too'', folder = Some ''work'',
             priority = Some high, dueDate = Some ''2024-03-01'',
             createdAt = ''2024-01-02T09:00:00.000Z'',
             updatedAt = ''2024-01-02T09:00:00.000Z'', tags = Some [''b'']\<rparr>"

section \<open>Row ids and the constraints of the schema\<close>

text \<open>An \<^verbatim>\<open>AUTOINCREMENT\<close> id is above every id in the table.\<close>

lemma fold_max_ge: "seq \<le> fold max ids (seq::nat)"
  by (induction ids arbitrary: seq) (auto intro: order_trans[OF max.cobounded2])

lemma fold_max_mem: "x \<in> set ids \<Longrightarrow> x \<le> fold max ids (seq::nat)"
proof (induction ids arbitrary: seq)
  case Nil
  then show ?case by simp
next
  case (Cons a ids)
  show ?case
  proof (cases "x = a")
    case True
    have "a \<le> max a seq" by simp
    also have "\<dots> \<le> fold max ids (max a seq)" by (rule fold_max_ge)
    finally show ?thesis using True by simp
  next
    case False
    with Cons show ?thesis by simp
  qed
qed

lemma next_rowid_fresh: "next_rowid seq ids \<notin> set ids"
  using fold_max_mem[of "next_rowid seq ids" ids seq] by (auto simp: next_rowid_def)

lemma next_rowid_above: "x \<in> set ids \<Longrightarrow> x \<le> next_rowid seq ids"
  using fold_max_mem[of x ids seq] by (simp add: next_rowid_def)

text \<open>\<^verbatim>\<open>UPDATE\<close> keeps every id, and keeps a title unless it assigns one.\<close>

lemma assign_note_id: "note_id (assign u r) = note_id r"
  by (simp add: assign_def)

lemma assign_title: "title (assign u r) = (case upd_title u of None \<Rightarrow> title r | Some v \<Rightarrow> v)"
  by (simp add: assign_def)

lemma map_note_id_update:
  "map note_id (map (\<lambda>r. if note_id r = i then assign u r else r) rs) = map note_id rs"
  by (induction rs) (auto simp: assign_note_id)

lemma titles_update_None:
  "upd_title u = None \<Longrightarrow>
   map title (map (\<lambda>r. if note_id r = i then assign u r else r) rs) = map title rs"
  by (induction rs) (auto simp: assign_title)

lemma distinct_titles_update:
  assumes "distinct (map note_id rs)" and "distinct (map title rs)"
    and "\<forall>r\<in>set rs. note_id r \<noteq> i \<longrightarrow> title r \<noteq> v" and "upd_title u = Some v"
  shows "distinct (map title (map (\<lambda>r. if note_id r = i then assign u r else r) rs))"
  using assms
proof (induction rs)
  case Nil
  then show ?case by simp
next
  case (Cons r rs)
  let ?f = "\<lambda>r. if note_id r = i then assign u r else r"
  have IH: "distinct (map title (map ?f rs))"
    using Cons by simp
  show ?case
  proof (cases "note_id r = i")
    case True
    from Cons.prems(1) True have "i \<notin> note_id ` set rs" by simp
    then have noti: "\<forall>x\<in>set rs. note_id x \<noteq> i" by blast
    then have same: "map ?f rs = rs" by (induction rs) auto
    from noti Cons.prems(3) have "\<forall>x\<in>set rs. title x \<noteq> v" by simp
    then have "v \<notin> set (map title rs)" by auto
    with True Cons.prems same show ?thesis by (simp add: assign_title)
  next
    case False
    have "set (map title (map ?f rs)) \<subseteq> insert v (set (map title rs))"
      using Cons.prems(4) by (auto simp: assign_title)
    moreover from False Cons.prems have "title r \<noteq> v" "title r \<notin> set (map title rs)" by auto
    ultimately have "title r \<notin> set (map title (map ?f rs))" by blast
    with False IH show ?thesis by simp
  qed
qed

text \<open>Every call keeps the constraints, so every reachable store satisfies them.\<close>

lemma schema_ok_init: "schema_ok init"
  by (simp add: schema_ok_def init_def)

lemma schema_ok_createNote: "schema_ok s \<Longrightarrow> schema_ok (snd (createNote s n))"
proof (cases "missing n \<or> find (\<lambda>r. title r = new_title n) (note_rows s) \<noteq> None")
  case True
  assume "schema_ok s"
  with True show ?thesis by (auto simp: createNote_def)
next
  case False
  assume ok: "schema_ok s"
  let ?i = "next_rowid (notes_seq s) (map note_id (note_rows s))"
  have fresh: "?i \<notin> set (map note_id (note_rows s))"
    by (rule next_rowid_fresh)
  have above: "\<forall>r\<in>set (note_rows s). note_id r \<le> ?i"
    by (auto intro: next_rowid_above)
  from False have nt: "new_title n \<notin> set (map title (note_rows s))"
    by (auto simp: find_None_iff)
  from ok fresh above nt False show ?thesis
    by (auto simp: schema_ok_def createNote_def Let_def list_all_iff)
qed

lemma schema_ok_updateNote: "schema_ok s \<Longrightarrow> schema_ok (snd (updateNote s i u))"
proof -
  assume ok: "schema_ok s"
  let ?s' = "s\<lparr>note_rows := map (\<lambda>r. if note_id r = i then assign u r else r) (note_rows s)\<rparr>"
  have ids: "map note_id (note_rows ?s') = map note_id (note_rows s)"
    by (simp add: map_note_id_update del: map_map)
  have seq: "list_all (\<lambda>r. note_id r \<le> notes_seq s) (note_rows ?s')"
    using ok by (auto simp: schema_ok_def list_all_iff assign_note_id split: if_splits)
  have rest: "distinct (map title (note_rows ?s')) \<Longrightarrow> schema_ok ?s'"
    using ok ids seq unfolding schema_ok_def by (simp del: map_map)
  show ?thesis
  proof (cases "upd_title u")
    case None
    then have "distinct (map title (note_rows ?s'))"
      using ok by (simp add: titles_update_None schema_ok_def del: map_map)
    with rest None ok show ?thesis by (simp add: updateNote_def)
  next
    case (Some v)
    show ?thesis
    proof (cases "find (\<lambda>r. note_id r \<noteq> i \<and> title r = v) (note_rows s) = None")
      case True
      then have "\<forall>r\<in>set (note_rows s). note_id r \<noteq> i \<longrightarrow> title r \<noteq> v"
        by (auto simp: find_None_iff)
      with ok Some have "distinct (map title (note_rows ?s'))"
        using distinct_titles_update[of "note_rows s" i v u] by (simp add: schema_ok_def)
      with rest Some ok True show ?thesis by (simp add: updateNote_def)
    next
      case False
      with Some ok show ?thesis by (simp add: updateNote_def)
    qed
  qed
qed

lemma schema_ok_deleteNote: "schema_ok s \<Longrightarrow> schema_ok (snd (deleteNote s i))"
  by (auto simp: schema_ok_def deleteNote_def list_all_iff distinct_map_filter)

lemma schema_ok_addTag: "schema_ok s \<Longrightarrow> schema_ok (snd (addTag s i tag))"
  by (auto simp: schema_ok_def addTag_def Let_def find_None_iff list_all_iff)

lemma schema_ok_removeTags: "schema_ok s \<Longrightarrow> schema_ok (snd (removeTags s i names))"
  by (auto simp: schema_ok_def removeTags_def list_all_iff distinct_map_filter)

lemma schema_ok_createFolder: "schema_ok s \<Longrightarrow> schema_ok (snd (createFolder now s nm))"
  by (auto simp: schema_ok_def createFolder_def Let_def)

lemma schema_ok_step: "schema_ok s \<Longrightarrow> schema_ok (step s c)"
  by (cases c)
    (simp_all add: schema_ok_createNote schema_ok_updateNote schema_ok_deleteNote schema_ok_addTag
      schema_ok_removeTags schema_ok_createFolder)

lemma schema_ok_foldl: "schema_ok s \<Longrightarrow> schema_ok (foldl step s calls)"
  by (induction calls arbitrary: s) (simp_all add: schema_ok_step)

lemma schema_ok_run: "schema_ok (run calls)"
  by (simp add: run_def schema_ok_foldl schema_ok_init)

section \<open>Creating notes\<close>

lemma find_title_None: "(find (\<lambda>r. title r = T) rs = None) = (T \<notin> set (map title rs))"
  by (auto simp: find_None_iff)

lemma find_note_id_None: "(find (\<lambda>r. note_id r = i) rs = None) = (i \<notin> set (map note_id rs))"
  by (auto simp: find_None_iff)

lemma find_snoc:
  "find P (xs @ [y]) = (case find P xs of None \<Rightarrow> if P y then Some y else None | Some x \<Rightarrow> Some x)"
  by (induction xs) auto

text \<open>
  C2: when a note with title \<open>T\<close> exists, the handler \<^verbatim>\<open>createNote\<close> with title \<open>T\<close> throws the
  \<^verbatim>\<open>InvalidParams\<close> rejection that says the title exists, and \<^verbatim>\<open>NotesDB.createNote\<close> with title
  \<open>T\<close> fails: on the \<^verbatim>\<open>UNIQUE\<close> constraint when the payload has every bound key, as the
  handler's always has, and in the binding otherwise. Both leave the store exactly as it
  was: no row is added, none is changed, and the id counter stays.
\<close>

theorem createNote_duplicate_title:
  assumes "T \<in> set (map title (note_rows s))" and "new_title n = T" and "cn_title args = T"
  shows "fst (createNote s n) =
           Inl (if missing n then MissingNamedParameter else UniqueConstraintFailed) \<and>
         snd (createNote s n) = s \<and>
         handle_createNote now s args = (Inl (McpError InvalidParams TitleExists), s)"
proof -
  from assms(1) have "find (\<lambda>r. title r = T) (note_rows s) \<noteq> None"
    by (simp add: find_title_None)
  then have db: "createNote s m =
      (Inl (if missing m then MissingNamedParameter else UniqueConstraintFailed), s)"
    if "new_title m = T" for m
    using that by (simp add: createNote_def)
  have given: "given x \<noteq> Absent" for x :: "'a option"
    by (cases x) simp_all
  show ?thesis
    by (simp add: db assms(2,3) handle_createNote_def missing_def given)
qed

theorem createNote_duplicate_title_witness:
  "''Groceries'' \<in> set (map title (note_rows example)) \<and>
   createNote example groceries = (Inl UniqueConstraintFailed, example) \<and>
   handle_createNote ''2024-02-01T09:00:00.000Z'' example
     \<lparr>cn_title = ''Groceries'', cn_content = ''buy eggs'', cn_folder = None,
      cn_priority = None, cn_dueDate = None\<rparr> =
     (Inl (McpError InvalidParams TitleExists), example)"
proof -
  have h: "''Groceries'' \<in> set (map title (note_rows example))"
    by code_simp
  have m: "\<not> missing groceries"
    by (simp add: missing_def groceries_def)
  from createNote_duplicate_title [OF h, of groceries
        "\<lparr>cn_title = ''Groceries'', cn_content = ''buy eggs'', cn_folder = None,
          cn_priority = None, cn_dueDate = None\<rparr>" "''2024-02-01T09:00:00.000Z''"]
  have "fst (createNote example groceries) = Inl UniqueConstraintFailed \<and>
        snd (createNote example groceries) = example \<and>
        handle_createNote ''2024-02-01T09:00:00.000Z'' example
          \<lparr>cn_title = ''Groceries'', cn_content = ''buy eggs'', cn_folder = None,
           cn_priority = None, cn_dueDate = None\<rparr> =
          (Inl (McpError InvalidParams TitleExists), example)"
    using m by (simp add: groceries_def)
  with h show ?thesis
    by (simp add: prod_eq_iff)
qed

text \<open>
  C8 as stated fails for a payload that leaves out an optional key the statement binds:
  the title is fresh, yet \<^verbatim>\<open>createNote\<close> throws in the binding, stores nothing, and the fetch
  by that title finds no note.
\<close>

theorem create_without_folder_counterexample:
  "new_title bare \<notin> set (map title (note_rows example)) \<and>
   createNote example bare = (Inl MissingNamedParameter, example) \<and>
   getNoteByTitle (snd (createNote example bare)) (new_title bare) = None"
  by code_simp

text \<open>
  C8, amended: in a store that satisfies the schema, creating a note under a title no
  note has, with a payload that has the keys \<^verbatim>\<open>folder\<close>, \<^verbatim>\<open>priority\<close> and \<^verbatim>\<open>dueDate\<close> (each with a
  value or \<^verbatim>\<open>undefined\<close>), succeeds and echoes the payload with the generated id; fetching
  the note by that title then returns the same title, content, folder, priority, due
  date and timestamps under that id, with the empty tag list. The generated id is the id
  of no earlier note.
\<close>

theorem create_then_fetch:
  assumes "schema_ok s" and "new_title n \<notin> set (map title (note_rows s))" and "\<not> missing n"
  shows "fst (createNote s n) =
           Inr \<lparr>note_id = next_rowid (notes_seq s) (map note_id (note_rows s)),
                title = new_title n, content = new_content n, folder = read (new_folder n),
                priority = read (new_priority n), dueDate = read (new_dueDate n),
                createdAt = new_createdAt n, updatedAt = new_updatedAt n, tags = new_tags n\<rparr> \<and>
         getNoteByTitle (snd (createNote s n)) (new_title n) =
           Some \<lparr>note_id = next_rowid (notes_seq s) (map note_id (note_rows s)),
                 title = new_title n, content = new_content n, folder = read (new_folder n),
                 priority = read (new_priority n), dueDate = read (new_dueDate n),
                 createdAt = new_createdAt n, updatedAt = new_updatedAt n, tags = Some []\<rparr> \<and>
         next_rowid (notes_seq s) (map note_id (note_rows s)) \<notin> set (map note_id (note_rows s))"
proof -
  let ?i = "next_rowid (notes_seq s) (map note_id (note_rows s))"
  let ?row = "\<lparr>note_id = ?i, title = new_title n, content = new_content n,
               folder = read (new_folder n), priority = read (new_priority n),
               dueDate = read (new_dueDate n),
               createdAt = new_createdAt n, updatedAt = new_updatedAt n\<rparr>"
  have fresh: "?i \<notin> set (map note_id (note_rows s))"
    by (rule next_rowid_fresh)
  from assms(2) have nf: "find (\<lambda>r. title r = new_title n) (note_rows s) = None"
    by (simp add: find_title_None)
  have c: "createNote s n =
      (Inr \<lparr>note_id = ?i, title = new_title n, content = new_content n,
            folder = read (new_folder n), priority = read (new_priority n),
            dueDate = read (new_dueDate n),
            createdAt = new_createdAt n, updatedAt = new_updatedAt n, tags = new_tags n\<rparr>,
       s\<lparr>note_rows := note_rows s @ [?row], notes_seq := ?i\<rparr>)"
    using nf assms(3) by (simp add: createNote_def Let_def)
  have f: "find (\<lambda>r. title r = new_title n) (note_rows s @ [?row]) = Some ?row"
    using nf by (simp add: find_snoc)
  from assms(1) have "\<forall>t\<in>set (tag_rows s). noteId t \<in> set (map note_id (note_rows s))"
    by (simp add: schema_ok_def list_all_iff)
  with fresh have "\<forall>t\<in>set (tag_rows s). noteId t \<noteq> ?i"
    by metis
  then have notags: "filter (\<lambda>t. noteId t = ?i) (tag_rows s) = []"
    by (simp add: filter_empty_conv)
  show ?thesis
    unfolding c using f notags fresh
    by (simp add: getNoteByTitle_def with_tags_def getNoteTags_def)
qed

theorem create_then_fetch_witness:
  "schema_ok example \<and> new_title todo \<notin> set (map title (note_rows example)) \<and> \<not> missing todo \<and>
   fst (createNote example todo) =
     Inr \<lparr>note_id = 3, title = ''Todo'', content = ''call the plumber'', folder = None,
          priority = Some low, dueDate = Some ''2024-02-10'',
          createdAt = ''2024-01-05T08:00:00.000Z'', updatedAt = ''2024-01-05T08:00:00.000Z'',
          tags = None\<rparr> \<and>
   getNoteByTitle (snd (createNote example todo)) ''Todo'' =
     Some \<lparr>note_id = 3, title = ''Todo'', content = ''call the plumber'', folder = None,
           priority = Some low, dueDate = Some ''2024-02-10'',
           createdAt = ''2024-01-05T08:00:00.000Z'', updatedAt = ''2024-01-05T08:00:00.000Z'',
           tags = Some []\<rparr>"
proof -
  have ok: "schema_ok example"
    by (simp add: example_def schema_ok_run)
  have fresh: "new_title todo \<notin> set (map title (note_rows example))"
    by code_simp
  have m: "\<not> missing todo"
    by (simp add: missing_def todo_def)
  have i: "next_rowid (notes_seq example) (map note_id (note_rows example)) = 3"
    by code_simp
  note th = create_then_fetch [OF ok fresh m]
  from th ok fresh m show ?thesis
    unfolding i by (simp add: todo_def)
qed

section \<open>Updating a note\<close>

lemma sets_nonempty: "upd_updatedAt u \<noteq> None \<Longrightarrow> sets u \<noteq> []"
  by (auto simp: sets_def keys_def)

lemma find_map_same_title:
  assumes "\<And>r. title (f r) = title r"
  shows "find (\<lambda>r. title r = T) (map f rs) = map_option f (find (\<lambda>r. title r = T) rs)"
  by (induction rs) (auto simp: assms)

lemma updateNote_frame:
  "map note_id (note_rows (snd (updateNote s i u))) = map note_id (note_rows s) \<and>
   tag_rows (snd (updateNote s i u)) = tag_rows s"
  by (simp add: updateNote_def map_note_id_update split: option.splits del: map_map)

text \<open>
  C7: for a note that exists, the handler \<^verbatim>\<open>updateNote\<close> succeeds, and the note fetched
  afterwards is the note fetched before with exactly these changes: content, folder,
  priority and due date take the supplied value where one is supplied and keep the old
  one where none is, and \<^verbatim>\<open>updatedAt\<close> is the current time. Its id, title, creation time and
  tags are as before; the tag table and the rows of the other notes are untouched. For
  \<^verbatim>\<open>NotesDB.updateNote\<close> with any id and any payload, even one that carries \<^verbatim>\<open>id\<close> or \<^verbatim>\<open>tags\<close>,
  the ids of the rows and the tag table stay as they are.
\<close>

theorem updateNote_partial:
  assumes "getNoteByTitle s T = Some note" and "un_title args = T"
  shows "fst (handle_updateNote now s args) = Inr (NoteUpdated T) \<and>
         getNoteByTitle (snd (handle_updateNote now s args)) T =
           Some (note\<lparr>content := (case un_content args of None \<Rightarrow> content note | Some v \<Rightarrow> v),
                      folder := (case un_folder args of None \<Rightarrow> folder note | Some v \<Rightarrow> Some v),
                      priority := (case un_priority args of None \<Rightarrow> priority note | Some v \<Rightarrow> Some v),
                      dueDate := (case un_dueDate args of None \<Rightarrow> dueDate note | Some v \<Rightarrow> Some v),
                      updatedAt := now\<rparr>) \<and>
         tag_rows (snd (handle_updateNote now s args)) = tag_rows s \<and>
         map note_id (note_rows (snd (handle_updateNote now s args))) = map note_id (note_rows s) \<and>
         filter (\<lambda>r. note_id r \<noteq> note_id note) (note_rows (snd (handle_updateNote now s args))) =
           filter (\<lambda>r. note_id r \<noteq> note_id note) (note_rows s) \<and>
         map note_id (note_rows (snd (updateNote s i u))) = map note_id (note_rows s) \<and>
         tag_rows (snd (updateNote s i u)) = tag_rows s"
proof -
  let ?u = "\<lparr>upd_id = None, upd_title = None, upd_content = un_content args,
             upd_folder = un_folder args, upd_tags = None,
             upd_priority = un_priority args, upd_dueDate = un_dueDate args,
             upd_createdAt = None, upd_updatedAt = Some now\<rparr>"
  from assms(1) obtain r where r: "find (\<lambda>r. title r = T) (note_rows s) = Some r"
    and nt: "note = with_tags s r"
    by (auto simp: getNoteByTitle_def split: option.splits)
  have idr: "note_id note = note_id r"
    by (simp add: nt with_tags_def)
  let ?f = "\<lambda>x. if note_id x = note_id r then assign ?u x else x"
  let ?s' = "s\<lparr>note_rows := map ?f (note_rows s)\<rparr>"
  from r have "r \<in> set (note_rows s)"
    by (auto simp: find_Some_iff)
  then have ex: "find (\<lambda>x. note_id x = note_id r) (note_rows s) \<noteq> None"
    by (auto simp: find_None_iff)
  have ne: "sets ?u \<noteq> []"
    by (rule sets_nonempty) simp
  have upd: "updateNote s (note_id r) ?u = (Inr True, ?s')"
    using ex ne by (simp add: updateNote_def)
  have h: "handle_updateNote now s args = (Inr (NoteUpdated T), ?s')"
    using assms upd idr by (simp add: handle_updateNote_def)
  have same: "title (?f x) = title x" for x
    by (simp add: assign_title)
  have "find (\<lambda>x. title x = T) (map ?f (note_rows s)) = Some (?f r)"
    using find_map_same_title [of ?f T "note_rows s", OF same] r by simp
  then have fetch: "getNoteByTitle ?s' T = Some (with_tags ?s' (assign ?u r))"
    by (simp add: getNoteByTitle_def)
  have wt: "with_tags ?s' (assign ?u r) =
        note\<lparr>content := (case un_content args of None \<Rightarrow> content note | Some v \<Rightarrow> v),
             folder := (case un_folder args of None \<Rightarrow> folder note | Some v \<Rightarrow> Some v),
             priority := (case un_priority args of None \<Rightarrow> priority note | Some v \<Rightarrow> Some v),
             dueDate := (case un_dueDate args of None \<Rightarrow> dueDate note | Some v \<Rightarrow> Some v),
             updatedAt := now\<rparr>"
    by (simp add: nt with_tags_def assign_def getNoteTags_def cong: option.case_cong)
  have others: "filter (\<lambda>x. note_id x \<noteq> note_id r) (map ?f rs) = filter (\<lambda>x. note_id x \<noteq> note_id r) rs"
    for rs
    by (induction rs) (auto simp: assign_note_id)
  have ids: "map note_id (map ?f (note_rows s)) = map note_id (note_rows s)"
    by (rule map_note_id_update)
  show ?thesis
    unfolding h using fetch wt others [of "note_rows s"] ids updateNote_frame [of s i u]
    by (simp add: idr del: map_map)
qed

theorem updateNote_partial_witness:
  "getNoteByTitle example ''Groceries2'' = Some note2 \<and>
   fst (handle_updateNote ''2024-01-09T12:00:00.000Z'' example
          \<lparr>un_title = ''Groceries2'', un_content = Some ''buy oat milk'', un_folder = None,
           un_priority = None, un_dueDate = None\<rparr>) = Inr (NoteUpdated ''Groceries2'') \<and>
   getNoteByTitle
     (snd (handle_updateNote ''2024-01-09T12:00:00.000Z'' example
          \<lparr>un_title = ''Groceries2'', un_content = Some ''buy oat milk'', un_folder = None,
           un_priority = None, un_dueDate = None\<rparr>)) ''Groceries2'' =
     Some \<lparr>note_id = 2, title = ''Groceries2'', content = ''buy oat milk'', folder = Some ''work'',
           priority = Some high, dueDate = Some ''2024-03-01'',
           createdAt = ''2024-01-02T09:00:00.000Z'',
           updatedAt = ''2024-01-09T12:00:00.000Z'', tags = Some [''b'']\<rparr>"
proof -
  have h: "getNoteByTitle example ''Groceries2'' = Some note2"
    by code_simp
  have t: "un_title \<lparr>un_title = ''Groceries2'', un_content = Some ''buy oat milk'', un_folder = None,
           un_priority = None, un_dueDate = None\<rparr> = ''Groceries2''"
    by simp
  note th = updateNote_partial [OF h t, where now = "''2024-01-09T12:00:00.000Z''"]
  from th h show ?thesis
    by (simp add: note2_def)
qed

section \<open>Deleting a note\<close>

text \<open>
  C6: deleting a note that exists reports success and removes its row and all of its
  tag rows, as many as the note had tags, and no others; a tag lookup under its id then
  returns nothing. In every store that a sequence of calls reaches, each tag row
  references a note that exists.
\<close>

theorem deleteNote_cascades:
  assumes "i \<in> set (map note_id (note_rows s))"
  shows "fst (deleteNote s i) \<and>
         i \<notin> set (map note_id (note_rows (snd (deleteNote s i)))) \<and>
         tag_rows (snd (deleteNote s i)) = filter (\<lambda>t. noteId t \<noteq> i) (tag_rows s) \<and>
         length (tag_rows (snd (deleteNote s i))) + length (getNoteTags s i) = length (tag_rows s) \<and>
         getNoteTags (snd (deleteNote s i)) i = [] \<and>
         list_all (\<lambda>t. noteId t \<in> set (map note_id (note_rows (run calls)))) (tag_rows (run calls))"
proof -
  from assms have ex: "find (\<lambda>r. note_id r = i) (note_rows s) \<noteq> None"
    by (simp add: find_note_id_None)
  then have d: "deleteNote s i =
      (True, s\<lparr>note_rows := filter (\<lambda>r. note_id r \<noteq> i) (note_rows s),
               tag_rows := filter (\<lambda>t. noteId t \<noteq> i) (tag_rows s)\<rparr>)"
    by (simp add: deleteNote_def)
  have len: "length (filter (\<lambda>t. noteId t \<noteq> i) ts) + length (filter (\<lambda>t. noteId t = i) ts) = length ts"
    for ts :: "Tag list"
    by (induction ts) auto
  have gone: "i \<notin> set (map note_id (filter (\<lambda>r. note_id r \<noteq> i) rs))" for rs :: "NoteRow list"
    by (induction rs) auto
  have fk: "list_all (\<lambda>t. noteId t \<in> set (map note_id (note_rows (run calls)))) (tag_rows (run calls))"
    using schema_ok_run [of calls] by (simp add: schema_ok_def)
  show ?thesis
    unfolding d using len [of "tag_rows s"] gone [of "note_rows s"] fk
    by (simp add: getNoteTags_def del: set_map set_filter)
qed

theorem deleteNote_cascades_witness:
  "1 \<in> set (map note_id (note_rows example)) \<and>
   length (getNoteTags example 1) = 2 \<and>
   fst (deleteNote example 1) \<and>
   1 \<notin> set (map note_id (note_rows (snd (deleteNote example 1)))) \<and>
   length (tag_rows (snd (deleteNote example 1))) + 2 = length (tag_rows example) \<and>
   getNoteTags (snd (deleteNote example 1)) 1 = [] \<and>
   list_all (\<lambda>t. noteId t \<in> set (map note_id (note_rows (run [CreateNote groceries, AddTag 1 ''a'', DeleteNote 1]))))
     (tag_rows (run [CreateNote groceries, AddTag 1 ''a'', DeleteNote 1]))"
proof -
  have h: "1 \<in> set (map note_id (note_rows example))"
    by code_simp
  have n: "length (getNoteTags example 1) = 2"
    by code_simp
  note th = deleteNote_cascades [OF h, of "[CreateNote groceries, AddTag 1 ''a'', DeleteNote 1]"]
  have c: "length (tag_rows (snd (deleteNote example 1))) + 2 = length (tag_rows example)"
    using th unfolding n by blast
  from th h n c show ?thesis by blast
qed

section \<open>Removing tags\<close>




section \<open>Search\<close>

subsection \<open>The order\<close>

lemma order_by_Nil: "order_by_updatedAt_desc [] = []"
  by (simp add: order_by_updatedAt_desc_def)

lemma order_by_Cons: "order_by_updatedAt_desc (r # rs) = insert_desc r (order_by_updatedAt_desc rs)"
  by (simp add: order_by_updatedAt_desc_def)

lemma set_insert_desc: "set (insert_desc x xs) = insert x (set xs)"
  by (induction xs) auto

lemma set_order_by: "set (order_by_updatedAt_desc rs) = set rs"
  by (induction rs) (simp_all add: order_by_Nil order_by_Cons set_insert_desc)

lemma sorted_insert_desc:
  assumes "sorted_wrt (\<lambda>a b. updatedAt b \<le> updatedAt a) xs"
  shows "sorted_wrt (\<lambda>a b. updatedAt b \<le> updatedAt a) (insert_desc x xs)"
  using assms
proof (induction xs)
  case Nil
  then show ?case by simp
next
  case (Cons y ys)
  show ?case
  proof (cases "updatedAt y \<le> updatedAt x")
    case True
    with Cons.prems have "\<forall>z\<in>set ys. updatedAt z \<le> updatedAt x"
      by (auto intro: order_trans)
    with True Cons.prems show ?thesis by simp
  next
    case False
    then have "updatedAt x \<le> updatedAt y" by simp
    with False Cons show ?thesis by (simp add: set_insert_desc)
  qed
qed

lemma sorted_order_by: "sorted_wrt (\<lambda>a b. updatedAt b \<le> updatedAt a) (order_by_updatedAt_desc rs)"
  by (induction rs) (simp_all add: order_by_Nil order_by_Cons sorted_insert_desc)

lemma distinct_ids_insert_desc:
  "distinct (map note_id (insert_desc x xs)) = distinct (map note_id (x # xs))"
  by (induction xs) (auto simp: set_insert_desc)

lemma distinct_ids_order_by:
  "distinct (map note_id (order_by_updatedAt_desc rs)) = distinct (map note_id rs)"
  by (induction rs) (simp_all add: order_by_Nil order_by_Cons distinct_ids_insert_desc set_order_by)

lemma sorted_with_tags:
  "sorted_wrt (\<lambda>a b. updatedAt b \<le> updatedAt a) (map (with_tags s) rs) =
   sorted_wrt (\<lambda>a b. updatedAt b \<le> updatedAt a) rs"
  by (simp add: sorted_wrt_map with_tags_def)

lemma ids_with_tags: "map note_id (map (with_tags s) rs) = map note_id rs"
  by (simp add: with_tags_def)

subsection \<open>The window\<close>

lemma limit_only_map: "limit_only l (map f rs) = map_sum id (map f) (limit_only l rs)"
  by (simp add: limit_only_def take_map split: option.splits)

lemma limit_offset_map: "limit_offset l k (map f rs) = map_sum id (map f) (limit_offset l k rs)"
  by (simp add: limit_offset_def take_map drop_map split: option.splits)

lemma window_map: "window lim off (map f rs) = map_sum id (map f) (window lim off rs)"
  by (simp add: window_def limit_only_map limit_offset_map split: option.splits)

lemma window_no_limit: "window None off rs = Inr rs"
  by (simp add: window_def)

lemma window_positive:
  assumes "0 < l" and "int64_range l" and "case ko of None \<Rightarrow> True | Some j \<Rightarrow> int64_range j"
  shows "window (Some (Integer l)) (map_option Integer ko) rs =
           Inr (take (nat l) (drop (nat (case ko of None \<Rightarrow> 0 | Some j \<Rightarrow> j)) rs))"
  using assms by (cases ko) (simp_all add: window_def limit_only_def limit_offset_def)

lemma window_sublist:
  assumes "window lim off rs = Inr page"
  shows "\<exists>a b. page = take a (drop b rs)"
proof -
  from assms consider "page = rs" | a where "page = take a rs" | b where "page = drop b rs"
    | a b where "page = take a (drop b rs)"
    by (auto simp: window_def limit_only_def limit_offset_def split: option.splits if_splits)
  then show ?thesis
  proof cases
    case 1
    then have "page = take (length rs) (drop 0 rs)" by simp
    then show ?thesis by blast
  next
    case 2
    then have "page = take a (drop 0 rs)" by simp
    then show ?thesis by blast
  next
    case 3
    then have "page = take (length rs) (drop b rs)" by simp
    then show ?thesis by blast
  next
    case 4
    then show ?thesis by blast
  qed
qed

lemma window_bounded:
  assumes "0 < l" and "window (Some (Integer l)) off rs = Inr page"
  shows "int (length page) \<le> l"
proof -
  from assms have "\<exists>b. page = take (nat l) (drop b rs)"
    by (auto simp: window_def limit_only_def limit_offset_def split: option.splits if_splits
        intro: exI [of _ 0])
  then obtain b where "page = take (nat l) (drop b rs)" ..
  then have "length page \<le> nat l" by simp
  with assms(1) show ?thesis by linarith
qed

lemma distinct_window:
  assumes "distinct (map f rs)" and "window lim off rs = Inr page"
  shows "distinct (map f page)"
proof -
  from assms(2) obtain a b where "page = take a (drop b rs)"
    using window_sublist by blast
  then have "map f page = take a (drop b (map f rs))"
    by (simp add: take_map drop_map)
  with assms(1) show ?thesis
    by (simp add: distinct_take distinct_drop)
qed

subsection \<open>The rows selected\<close>

lemma limit_offset_unused:
  "conditions (opts\<lparr>limit := l, offset := k\<rparr>) = conditions opts"
  "from_rows s (opts\<lparr>limit := l, offset := k\<rparr>) = from_rows s opts"
  "searchFields (opts\<lparr>limit := l, offset := k\<rparr>) = searchFields opts"
  by (auto simp: conditions_def from_rows_def joins_tags_def searchFields_def fun_eq_iff
      split: option.splits)

lemma searchNotes_window:
  "searchNotes s opts =
     (if query opts \<noteq> [] \<and> searchFields opts = [] then Inl SyntaxError
      else window (limit opts) (offset opts) (map (with_tags s)
        (order_by_updatedAt_desc (remdups (map fst (filter (conditions opts) (from_rows s opts)))))))"
  by (simp add: searchNotes_def window_map split: sum.splits)

lemma searchNotes_all:
  "searchNotes s (opts\<lparr>limit := l, offset := k\<rparr>) =
     (if query opts \<noteq> [] \<and> searchFields opts = [] then Inl SyntaxError
      else window l k (map (with_tags s)
        (order_by_updatedAt_desc (remdups (map fst (filter (conditions opts) (from_rows s opts)))))))"
  by (simp add: searchNotes_window limit_offset_unused)

lemma from_rows_notes: "fst ` set (from_rows s opts) \<subseteq> set (note_rows s)"
  by (auto simp: from_rows_def split: list.splits)

lemma from_rows_joined:
  assumes "joins_tags opts" and "n \<in> set (note_rows s)" and "t \<in> set (tag_rows s)"
    and "noteId t = note_id n"
  shows "(n, Some t) \<in> set (from_rows s opts)"
proof -
  from assms(3,4) have "t \<in> set (filter (\<lambda>t. noteId t = note_id n) (tag_rows s))"
    by simp
  then have "(n, Some t) \<in> set (case filter (\<lambda>t. noteId t = note_id n) (tag_rows s) of
        [] \<Rightarrow> [(n, None)] | ts \<Rightarrow> map (\<lambda>t. (n, Some t)) ts)"
    by (cases "filter (\<lambda>t. noteId t = note_id n) (tag_rows s)") (simp, force)
  with assms(1,2) show ?thesis
    by (force simp: from_rows_def)
qed

lemma distinct_ids_selected:
  assumes "distinct (map note_id (note_rows s))"
  shows "distinct (map note_id (remdups (map fst (filter c (from_rows s opts)))))"
proof -
  have "set (remdups (map fst (filter c (from_rows s opts)))) \<subseteq> set (note_rows s)"
    using from_rows_notes [of s opts] by auto
  moreover from assms have "inj_on note_id (set (note_rows s))"
    by (simp add: distinct_map)
  ultimately have "inj_on note_id (set (remdups (map fst (filter c (from_rows s opts)))))"
    by (rule inj_on_subset [rotated])
  then show ?thesis
    by (simp add: distinct_map)
qed

lemma joins_tags_fields: "joins_tags opts \<Longrightarrow> searchFields opts \<noteq> []"
  by (auto simp: joins_tags_def searchFields_def split: option.splits)

lemma once_by_id:
  "distinct (map f xs) \<Longrightarrow> i \<in> set (map f xs) \<Longrightarrow> length (filter (\<lambda>r. f r = i) xs) = 1"
proof (induction xs)
  case Nil
  then show ?case by simp
next
  case (Cons a xs)
  show ?case
  proof (cases "f a = i")
    case True
    from Cons.prems(1) True have "i \<notin> f ` set xs" by simp
    then have "\<forall>r\<in>set xs. f r \<noteq> i" by blast
    then have "filter (\<lambda>r. f r = i) xs = []" by (simp add: filter_empty_conv)
    with True show ?thesis by simp
  next
    case False
    with Cons show ?thesis by auto
  qed
qed





lemma hasDueDate_unused:
  "conditions (opts\<lparr>hasDueDate := h\<rparr>) = conditions opts"
  "from_rows s (opts\<lparr>hasDueDate := h\<rparr>) = from_rows s opts"
  "searchFields (opts\<lparr>hasDueDate := h\<rparr>) = searchFields opts"
  by (auto simp: conditions_def from_rows_def joins_tags_def searchFields_def fun_eq_iff
      split: option.splits)

subsection \<open>What a search returns\<close>

lemma sort_unused:
  "conditions (opts\<lparr>sortBy := f, sortOrder := d\<rparr>) = conditions opts"
  "from_rows s (opts\<lparr>sortBy := f, sortOrder := d\<rparr>) = from_rows s opts"
  "searchFields (opts\<lparr>sortBy := f, sortOrder := d\<rparr>) = searchFields opts"
  by (auto simp: conditions_def from_rows_def joins_tags_def searchFields_def fun_eq_iff
      split: option.splits)

text \<open>
  C1: \<^verbatim>\<open>searchNotes\<close> returns the same whatever \<^verbatim>\<open>sortBy\<close> and \<^verbatim>\<open>sortOrder\<close> say: it always orders
  by \<^verbatim>\<open>updatedAt\<close> descending. In the example the request asks for \<^verbatim>\<open>updatedAt\<close> ascending, and
  the answer lists the note updated on 2 January before the note updated on 1 January.
\<close>

theorem sort_request_ignored:
  "searchNotes s (opts\<lparr>sortBy := f, sortOrder := d\<rparr>) = searchNotes s opts \<and>
   searchNotes example (milk\<lparr>sortBy := Some by_updatedAt, sortOrder := Some asc\<rparr>) =
     Inr [note2, note1] \<and>
   \<not> updatedAt note2 \<le> updatedAt note1"
proof -
  have "searchNotes s (opts\<lparr>sortBy := f, sortOrder := d\<rparr>) = searchNotes s opts"
    by (simp add: searchNotes_window sort_unused)
  moreover have "searchNotes example (milk\<lparr>sortBy := Some by_updatedAt, sortOrder := Some asc\<rparr>) =
      Inr [note2, note1]"
    by code_simp
  moreover have "\<not> updatedAt note2 \<le> updatedAt note1"
    by code_simp
  ultimately show ?thesis by blast
qed

text \<open>
  C3: in a store that satisfies the schema, a search whose fields include \<^verbatim>\<open>tags\<close>, taken
  without limit and offset, never fails and returns each note at most once, and exactly
  once a note of which some tag row passes the \<^verbatim>\<open>WHERE\<close> clause, however many of its tag
  rows do. With limit and offset the search returns the window of that duplicate-free
  sequence, or the failure of the window, so a page holds no note twice either.
\<close>

theorem tag_join_deduplicated:
  assumes "schema_ok s" and "joins_tags opts"
  shows "\<exists>rs. searchNotes s (opts\<lparr>limit := None, offset := None\<rparr>) = Inr rs \<and>
           distinct (map note_id rs) \<and>
           (\<forall>n t. n \<in> set (note_rows s) \<and> t \<in> set (tag_rows s) \<and> noteId t = note_id n \<and>
                  conditions opts (n, Some t) \<longrightarrow>
                  length (filter (\<lambda>r. note_id r = note_id n) rs) = 1) \<and>
           searchNotes s opts = window (limit opts) (offset opts) rs \<and>
           (\<forall>page. searchNotes s opts = Inr page \<longrightarrow> distinct (map note_id page))"
proof -
  let ?rows = "order_by_updatedAt_desc (remdups (map fst (filter (conditions opts) (from_rows s opts))))"
  let ?rs = "map (with_tags s) ?rows"
  from assms(2) have fields: "searchFields opts \<noteq> []"
    by (rule joins_tags_fields)
  have all: "searchNotes s (opts\<lparr>limit := None, offset := None\<rparr>) = Inr ?rs"
    using fields by (simp add: searchNotes_all window_no_limit)
  have page: "searchNotes s opts = window (limit opts) (offset opts) ?rs"
    using fields by (simp add: searchNotes_window)
  from assms(1) have "distinct (map note_id (note_rows s))"
    by (simp add: schema_ok_def)
  then have dist: "distinct (map note_id ?rs)"
    unfolding ids_with_tags distinct_ids_order_by by (rule distinct_ids_selected)
  have once: "length (filter (\<lambda>r. note_id r = note_id n) ?rs) = 1"
    if "n \<in> set (note_rows s)" "t \<in> set (tag_rows s)" "noteId t = note_id n"
      "conditions opts (n, Some t)" for n t
  proof -
    from assms(2) that(1-3) have "(n, Some t) \<in> set (from_rows s opts)"
      by (rule from_rows_joined)
    with that(4) have "n \<in> set ?rows"
      by (force simp: set_order_by)
    then have "note_id n \<in> set (map note_id ?rs)"
      unfolding ids_with_tags by simp
    with dist show ?thesis
      by (rule once_by_id)
  qed
  have pages: "distinct (map note_id p)" if "searchNotes s opts = Inr p" for p
    using that dist unfolding page by (rule distinct_window [rotated])
  from all dist once page pages show ?thesis
    by blast
qed

theorem tag_join_deduplicated_witness:
  "schema_ok example \<and> joins_tags tagged_a \<and>
   \<lparr>note_id = 1, title = ''Groceries'', content = ''buy milk'', folder = Some ''home'',
     priority = None, dueDate = None, createdAt = ''2024-01-01T09:00:00.000Z'',
     updatedAt = ''2024-01-01T09:00:00.000Z''\<rparr> \<in> set (note_rows example) \<and>
   \<lparr>tag_id = 1, tag_name = ''a'', noteId = 1\<rparr> \<in> set (tag_rows example) \<and>
   conditions tagged_a
     (\<lparr>note_id = 1, title = ''Groceries'', content = ''buy milk'', folder = Some ''home'',
       priority = None, dueDate = None, createdAt = ''2024-01-01T09:00:00.000Z'',
       updatedAt = ''2024-01-01T09:00:00.000Z''\<rparr>, Some \<lparr>tag_id = 1, tag_name = ''a'', noteId = 1\<rparr>) \<and>
   conditions tagged_a
     (\<lparr>note_id = 1, title = ''Groceries'', content = ''buy milk'', folder = Some ''home'',
       priority = None, dueDate = None, createdAt = ''2024-01-01T09:00:00.000Z'',
       updatedAt = ''2024-01-01T09:00:00.000Z''\<rparr>, Some \<lparr>tag_id = 2, tag_name = ''ab'', noteId = 1\<rparr>) \<and>
   searchNotes example tagged_a = Inr [note1] \<and>
   length (filter (\<lambda>r. note_id r = 1) [note1]) = 1"
proof -
  let ?n = "\<lparr>note_id = 1, title = ''Groceries'', content = ''buy milk'', folder = Some ''home'',
       priority = None, dueDate = None, createdAt = ''2024-01-01T09:00:00.000Z'',
       updatedAt = ''2024-01-01T09:00:00.000Z''\<rparr>"
  let ?t = "\<lparr>tag_id = 1, tag_name = ''a'', noteId = 1\<rparr>"
  have ok: "schema_ok example"
    by (simp add: example_def schema_ok_run)
  have j: "joins_tags tagged_a"
    by code_simp
  have n: "?n \<in> set (note_rows example)"
    by code_simp
  have t: "?t \<in> set (tag_rows example)"
    by code_simp
  have c1: "conditions tagged_a (?n, Some ?t)"
    by code_simp
  have c2: "conditions tagged_a (?n, Some \<lparr>tag_id = 2, tag_name = ''ab'', noteId = 1\<rparr>)"
    by code_simp
  have full: "searchNotes example (tagged_a\<lparr>limit := None, offset := None\<rparr>) = Inr [note1]"
    by code_simp
  from tag_join_deduplicated [OF ok j] obtain rs
    where "searchNotes example (tagged_a\<lparr>limit := None, offset := None\<rparr>) = Inr rs"
      and once: "\<forall>n t. n \<in> set (note_rows example) \<and> t \<in> set (tag_rows example) \<and>
                  noteId t = note_id n \<and> conditions tagged_a (n, Some t) \<longrightarrow>
                  length (filter (\<lambda>r. note_id r = note_id n) rs) = 1"
      and page: "searchNotes example tagged_a = window (limit tagged_a) (offset tagged_a) rs"
    by blast
  with full have rs: "rs = [note1]" by simp
  with page have found: "searchNotes example tagged_a = Inr [note1]"
    by (simp add: tagged_a_def window_def limit_only_def int64_range_def)
  have "noteId ?t = note_id ?n"
    by simp
  with once n t c1 have "length (filter (\<lambda>r. note_id r = note_id ?n) rs) = 1"
    by blast
  then have "length (filter (\<lambda>r. note_id r = 1) [note1]) = 1"
    unfolding rs by simp
  with ok j n t c1 c2 found show ?thesis by blast
qed

text \<open>
  C4 as stated fails for a limit of 0: the request supplies the limit 0 and gets both
  matching notes, since \<^verbatim>\<open>if (options.limit)\<close> reads the number 0 as no limit.
\<close>

theorem limit_zero_counterexample:
  "searchNotes example (milk\<lparr>limit := Some (Integer 0)\<rparr>) = Inr [note2, note1] \<and>
   \<not> int (length [note2, note1]) \<le> 0"
  by code_simp

text \<open>
  C4, amended: without a limit the search returns the same as without limit and offset,
  whatever the offset. With a positive limit \<open>l\<close> and an offset \<open>k\<close> (none counts as 0, and so
  does a negative one), both integers that the engine reads as 64-bit integers, it
  returns the first \<open>l\<close> notes after the first \<open>k\<close> of that full sequence; and whatever the
  offset, a search with a positive limit \<open>l\<close> that returns at all returns at most \<open>l\<close> notes.
  The full sequence is in descending order of \<^verbatim>\<open>updatedAt\<close> and, in a store that satisfies
  the schema, holds no note twice.
\<close>

theorem offset_needs_limit:
  "searchNotes s (opts\<lparr>limit := None, offset := k\<rparr>) =
     searchNotes s (opts\<lparr>limit := None, offset := None\<rparr>) \<and>
   (0 < l \<and> int64_range l \<and> (case ko of None \<Rightarrow> True | Some j \<Rightarrow> int64_range j) \<longrightarrow>
      searchNotes s (opts\<lparr>limit := Some (Integer l), offset := map_option Integer ko\<rparr>) =
        map_sum id (\<lambda>rs. take (nat l) (drop (nat (case ko of None \<Rightarrow> 0 | Some j \<Rightarrow> j)) rs))
          (searchNotes s (opts\<lparr>limit := None, offset := None\<rparr>))) \<and>
   (0 < l \<longrightarrow>
      (\<forall>rs. searchNotes s (opts\<lparr>limit := Some (Integer l), offset := k\<rparr>) = Inr rs \<longrightarrow>
            int (length rs) \<le> l)) \<and>
   (\<forall>rs. searchNotes s (opts\<lparr>limit := None, offset := None\<rparr>) = Inr rs \<longrightarrow>
      sorted_wrt (\<lambda>a b. updatedAt b \<le> updatedAt a) rs \<and>
      (schema_ok s \<longrightarrow> distinct (map note_id rs)))"
proof -
  let ?rows = "order_by_updatedAt_desc (remdups (map fst (filter (conditions opts) (from_rows s opts))))"
  have a: "searchNotes s (opts\<lparr>limit := None, offset := k\<rparr>) =
      searchNotes s (opts\<lparr>limit := None, offset := None\<rparr>)"
    by (simp only: searchNotes_all window_no_limit)
  have c: "searchNotes s (opts\<lparr>limit := Some (Integer l), offset := map_option Integer ko\<rparr>) =
        map_sum id (\<lambda>rs. take (nat l) (drop (nat (case ko of None \<Rightarrow> 0 | Some j \<Rightarrow> j)) rs))
          (searchNotes s (opts\<lparr>limit := None, offset := None\<rparr>))"
    if "0 < l" "int64_range l" "case ko of None \<Rightarrow> True | Some j \<Rightarrow> int64_range j"
    by (simp add: searchNotes_all window_no_limit window_positive [OF that])
  have d: "int (length rs) \<le> l"
    if "0 < l" and "searchNotes s (opts\<lparr>limit := Some (Integer l), offset := k\<rparr>) = Inr rs" for rs
  proof -
    from that(2) have "window (Some (Integer l)) k (map (with_tags s) ?rows) = Inr rs"
      by (simp add: searchNotes_all split: if_splits)
    with that(1) show ?thesis
      by (rule window_bounded)
  qed
  have e: "sorted_wrt (\<lambda>a b. updatedAt b \<le> updatedAt a) rs \<and> (schema_ok s \<longrightarrow> distinct (map note_id rs))"
    if "searchNotes s (opts\<lparr>limit := None, offset := None\<rparr>) = Inr rs" for rs
  proof -
    from that have rs: "rs = map (with_tags s) ?rows"
      by (auto simp: searchNotes_all window_no_limit split: if_splits)
    have "sorted_wrt (\<lambda>a b. updatedAt b \<le> updatedAt a) rs"
      unfolding rs sorted_with_tags by (rule sorted_order_by)
    moreover have "distinct (map note_id rs)" if "schema_ok s"
      unfolding rs ids_with_tags distinct_ids_order_by
      using that by (intro distinct_ids_selected) (simp add: schema_ok_def)
    ultimately show ?thesis by blast
  qed
  from a c d e show ?thesis by blast
qed

theorem offset_needs_limit_witness:
  "(0::int) < 1 \<and> int64_range 1 \<and> schema_ok example \<and>
   searchNotes example (milk\<lparr>limit := None, offset := None\<rparr>) = Inr [note2, note1] \<and>
   searchNotes example (milk\<lparr>limit := None, offset := Some (Integer 1)\<rparr>) = Inr [note2, note1] \<and>
   searchNotes example (milk\<lparr>limit := Some (Integer 1), offset := Some (Integer 1)\<rparr>) = Inr [note1] \<and>
   int (length [note1]) \<le> 1 \<and>
   sorted_wrt (\<lambda>a b. updatedAt b \<le> updatedAt a) [note2, note1] \<and>
   distinct (map note_id [note2, note1])"
proof -
  have ok: "schema_ok example"
    by (simp add: example_def schema_ok_run)
  have r: "int64_range 1"
    by (simp add: int64_range_def)
  have full: "searchNotes example (milk\<lparr>limit := None, offset := None\<rparr>) = Inr [note2, note1]"
    by code_simp
  note th = offset_needs_limit [where s = example and opts = milk and k = "Some (Integer 1)"
      and l = 1 and ko = "Some 1"]
  from th have a: "searchNotes example (milk\<lparr>limit := None, offset := Some (Integer 1)\<rparr>) =
      Inr [note2, note1]"
    unfolding full by blast
  from th r have "searchNotes example (milk\<lparr>limit := Some (Integer 1), offset := map_option Integer (Some 1)\<rparr>) =
      map_sum id (\<lambda>rs. take (nat 1) (drop (nat (case Some 1 of None \<Rightarrow> 0 | Some j \<Rightarrow> j)) rs))
        (Inr [note2, note1])"
    unfolding full by simp
  then have c: "searchNotes example (milk\<lparr>limit := Some (Integer 1), offset := Some (Integer 1)\<rparr>) =
      Inr [note1]"
    by simp
  from th c have b: "int (length [note1]) \<le> 1"
    by simp
  from th ok have d: "sorted_wrt (\<lambda>a b. updatedAt b \<le> updatedAt a) [note2, note1] \<and>
      distinct (map note_id [note2, note1])"
    unfolding full by blast
  from ok r full a b c d show ?thesis by simp
qed




text \<open>
  C10: two search requests that differ only in \<^verbatim>\<open>hasDueDate\<close> get the same answer, from
  \<^verbatim>\<open>NotesDB.searchNotes\<close> and from the handler: the same notes in the same order, or the
  same failure.
\<close>

theorem searchNotes_ignores_hasDueDate:
  "searchNotes s (opts\<lparr>hasDueDate := h1\<rparr>) = searchNotes s (opts\<lparr>hasDueDate := h2\<rparr>) \<and>
   handle_searchNotes s (opts\<lparr>hasDueDate := h1\<rparr>) = handle_searchNotes s (opts\<lparr>hasDueDate := h2\<rparr>)"
  by (simp add: searchNotes_window handle_searchNotes_def hasDueDate_unused)

end
